theory Spec2Isabelle
  imports Complex_Main
begin

section \<open>Data model\<close>

text \<open>
  The notebook \<^verbatim>\<open>module-4/review/Part 2.ipynb\<close> is one straight-line cell. Its tables are
  lists of rows in file order; only the columns \<^verbatim>\<open>uID\<close>, \<^verbatim>\<open>mID\<close> and \<^verbatim>\<open>rating\<close> are read.
  NumPy's float64 cells are modelled as exact reals.
\<close>

record rating_row =
  uID :: int
  mID :: int
  rating :: real

type_synonym table = "rating_row list"

type_synonym ndarray = "real list list"

datatype error = InsufficientDataError | EmptyEvaluationSetError | KeyError | IndexError | ValueError

section \<open>Library operations used by the notebook\<close>

text \<open>\<^verbatim>\<open>Series.drop_duplicates()\<close> and \<^verbatim>\<open>Series.unique()\<close>: the first occurrence of each value
  is kept, in order of appearance.\<close>

definition drop_duplicates :: "'a list \<Rightarrow> 'a list" where
  "drop_duplicates xs = rev (remdups (rev xs))"

definition unique :: "'a list \<Rightarrow> 'a list" where
  "unique xs = drop_duplicates xs"

text \<open>\<^verbatim>\<open>Series.isin(values)\<close> on one cell.\<close>

definition isin :: "'a \<Rightarrow> 'a list \<Rightarrow> bool" where
  "isin x values \<longleftrightarrow> x \<in> set values"

text \<open>
  The random choice behind \<^verbatim>\<open>Series.sample\<close> is a parameter: given the state of the ambient
  (process-wide) generator, the \<^verbatim>\<open>random_state\<close> argument, the sample size and the population,
  it returns the elements drawn.
\<close>

type_synonym ('g, 'a) chooser = "'g \<Rightarrow> nat option \<Rightarrow> nat \<Rightarrow> 'a list \<Rightarrow> 'a list"

text \<open>
  Modelled from the spec: \<^verbatim>\<open>pandas.Series.sample\<close> is library code and is not part of the
  sources. The spec says of it that the draw is without replacement from the distinct ids and
  that it fails with \<^verbatim>\<open>InsufficientDataError\<close> if the set has fewer elements than the
  requested sample size.
\<close>

definition sample :: "('g, 'a) chooser \<Rightarrow> 'g \<Rightarrow> nat \<Rightarrow> nat option \<Rightarrow> 'a list \<Rightarrow> error + 'a list" where
  "sample pick g n random_state xs =
     (if length xs < n then Inl InsufficientDataError
      else Inr (pick g random_state n xs))"

text \<open>
  Modelled from the spec: the random generator behind \<^verbatim>\<open>pandas.Series.sample\<close> is library
  code and is not part of the sources. The spec says that each draw uses the same seed, so that
  results are reproducible across runs: when a \<^verbatim>\<open>random_state\<close> is passed, the draw comes from
  a generator initialised from that seed alone; otherwise it comes from the ambient generator.
  The seeding \<open>init\<close> and the drawing \<open>draw\<close> of the generator stay parameters.
\<close>

definition library_chooser :: "(nat \<Rightarrow> 'g) \<Rightarrow> ('g \<Rightarrow> nat \<Rightarrow> 'a list \<Rightarrow> 'a list) \<Rightarrow> ('g, 'a) chooser" where
  "library_chooser init draw g random_state n xs =
     draw (case random_state of None \<Rightarrow> g | Some seed \<Rightarrow> init seed) n xs"

text \<open>
  Modelled from the spec: \<^verbatim>\<open>sklearn.metrics.mean_squared_error\<close> is library code and is not
  part of the sources. The spec says the error is the mean of \<^verbatim>\<open>(actual - predicted)^2\<close> over
  all retained pairs and that an empty evaluation set fails with
  \<^verbatim>\<open>EmptyEvaluationSetError\<close>.
\<close>

definition mean_squared_error :: "real list \<Rightarrow> real list \<Rightarrow> error + real" where
  "mean_squared_error actual predicted =
     (if actual = [] then Inl EmptyEvaluationSetError
      else Inr (sum_list (map2 (\<lambda>a p. (a - p)\<^sup>2) actual predicted) / real (length actual)))"

text \<open>\<^verbatim>\<open>np.zeros((r, c))\<close>.\<close>

definition zeros :: "nat \<Rightarrow> nat \<Rightarrow> ndarray" where
  "zeros r c = replicate r (replicate c 0)"

text \<open>Reading and writing one cell of a two-dimensional array; an index outside the shape
  raises \<^verbatim>\<open>IndexError\<close>.\<close>

definition get_cell :: "ndarray \<Rightarrow> nat \<Rightarrow> nat \<Rightarrow> error + real" where
  "get_cell a i j =
     (if i < length a \<and> j < length (a ! i) then Inr (a ! i ! j) else Inl IndexError)"

definition set_cell :: "ndarray \<Rightarrow> nat \<Rightarrow> nat \<Rightarrow> real \<Rightarrow> error + ndarray" where
  "set_cell a i j v =
     (if i < length a \<and> j < length (a ! i) then Inr (a[i := (a ! i)[j := v]]) else Inl IndexError)"

text \<open>Subscripting a dict; a missing key raises \<^verbatim>\<open>KeyError\<close>.\<close>

definition getitem :: "(int \<rightharpoonup> nat) \<Rightarrow> int \<Rightarrow> error + nat" where
  "getitem d k = (case d k of None \<Rightarrow> Inl KeyError | Some i \<Rightarrow> Inr i)"

text \<open>\<^verbatim>\<open>np.dot\<close> of two two-dimensional arrays; the inner dimensions must agree.\<close>

definition ncols :: "ndarray \<Rightarrow> nat" where
  "ncols a = (case a of [] \<Rightarrow> 0 | r # _ \<Rightarrow> length r)"

definition dot :: "ndarray \<Rightarrow> ndarray \<Rightarrow> error + ndarray" where
  "dot a b =
     (if (\<forall>r \<in> set a. length r = length b) \<and> (\<forall>r \<in> set b. length r = ncols b)
      then Inr (map (\<lambda>r. map (\<lambda>j. \<Sum>k\<leftarrow>[0..<length b]. r ! k * b ! k ! j) [0..<ncols b]) a)
      else Inl ValueError)"

text \<open>
  The factorization itself (\<^verbatim>\<open>NMF(...).fit_transform\<close> and \<^verbatim>\<open>components_\<close>) is an external
  collaborator and a parameter of the model: given the number of components and the matrix
  it returns the two factors, or fails.
\<close>

type_synonym nmf = "nat \<Rightarrow> ndarray \<Rightarrow> error + (ndarray \<times> ndarray)"

section \<open>Sampler\<close>

text \<open>
  \<^verbatim>\<open>selected_users = train_data['uID'].drop_duplicates().sample(500, random_state=42)\<close>
  \<^verbatim>\<open>selected_movies = train_data['mID'].drop_duplicates().sample(500, random_state=42)\<close>
  \<^verbatim>\<open>subset = train_data[(train_data['uID'].isin(selected_users)) & (train_data['mID'].isin(selected_movies))]\<close>

  \<open>selected_ids\<close> is one such draw with the sample size and the seed as arguments; the notebook
  fixes them to 500 and 42. The draw of the users comes first, so its failure is the one
  reported when both fail.
\<close>

definition selected_ids :: "('g, int) chooser \<Rightarrow> 'g \<Rightarrow> nat \<Rightarrow> nat \<Rightarrow> int list \<Rightarrow> error + int list" where
  "selected_ids pick g n seed col = sample pick g n (Some seed) (drop_duplicates col)"

definition selected_users :: "('g, int) chooser \<Rightarrow> 'g \<Rightarrow> table \<Rightarrow> error + int list" where
  "selected_users pick g train_data = selected_ids pick g 500 42 (map uID train_data)"

definition selected_movies :: "('g, int) chooser \<Rightarrow> 'g \<Rightarrow> table \<Rightarrow> error + int list" where
  "selected_movies pick g train_data = selected_ids pick g 500 42 (map mID train_data)"

definition subset_rows :: "table \<Rightarrow> int list \<Rightarrow> int list \<Rightarrow> table" where
  "subset_rows train_data su sm =
     filter (\<lambda>row. isin (uID row) su \<and> isin (mID row) sm) train_data"

definition Sampler :: "('g, int) chooser \<Rightarrow> 'g \<Rightarrow> table \<Rightarrow> error + (int list \<times> int list \<times> table)" where
  "Sampler pick g train_data =
     (case selected_users pick g train_data of
        Inl e \<Rightarrow> Inl e
      | Inr su \<Rightarrow>
          (case selected_movies pick g train_data of
             Inl e \<Rightarrow> Inl e
           | Inr sm \<Rightarrow> Inr (su, sm, subset_rows train_data su sm)))"

section \<open>Matrix builder\<close>

text \<open>
  \<^verbatim>\<open>u_index = subset['uID'].unique()\<close>, \<^verbatim>\<open>m_index = subset['mID'].unique()\<close>,
  \<^verbatim>\<open>u_map = {u: i for i, u in enumerate(u_index)}\<close>, \<^verbatim>\<open>m_map = {m: j for j, m in enumerate(m_index)}\<close>,
  \<^verbatim>\<open>matrix = np.zeros((len(u_index), len(m_index)))\<close>, and the loop
  \<^verbatim>\<open>for row in subset.itertuples(index=False): matrix[u_map[row.uID], m_map[row.mID]] = row.rating\<close>.
\<close>

text \<open>The dict comprehension: one store per element of the index array, in order.\<close>

definition index_map :: "int list \<Rightarrow> (int \<rightharpoonup> nat)" where
  "index_map idx = fold (\<lambda>(i, u) d. d(u \<mapsto> i)) (enumerate 0 idx) Map.empty"

fun fill :: "(int \<rightharpoonup> nat) \<Rightarrow> (int \<rightharpoonup> nat) \<Rightarrow> ndarray \<Rightarrow> table \<Rightarrow> error + ndarray" where
  "fill um mm a [] = Inr a"
| "fill um mm a (row # rows) =
     (case getitem um (uID row) of
        Inl e \<Rightarrow> Inl e
      | Inr i \<Rightarrow>
          (case getitem mm (mID row) of
             Inl e \<Rightarrow> Inl e
           | Inr j \<Rightarrow>
               (case set_cell a i j (rating row) of
                  Inl e \<Rightarrow> Inl e
                | Inr a' \<Rightarrow> fill um mm a' rows)))"

record built =
  u_index :: "int list"
  m_index :: "int list"
  u_map :: "int \<rightharpoonup> nat"
  m_map :: "int \<rightharpoonup> nat"
  matrix :: ndarray

definition Matrix_Builder :: "table \<Rightarrow> error + built" where
  "Matrix_Builder sub =
     (let ui = unique (map uID sub);
          mi = unique (map mID sub);
          um = index_map ui;
          mm = index_map mi
      in case fill um mm (zeros (length ui) (length mi)) sub of
           Inl e \<Rightarrow> Inl e
         | Inr a \<Rightarrow> Inr \<lparr>u_index = ui, m_index = mi, u_map = um, m_map = mm, matrix = a\<rparr>)"

section \<open>Factorization harness\<close>

text \<open>
  \<^verbatim>\<open>model = NMF(n_components=20, init='random', random_state=42, max_iter=200)\<close>,
  \<^verbatim>\<open>user_factors = model.fit_transform(matrix)\<close>, \<^verbatim>\<open>movie_factors = model.components_\<close>,
  \<^verbatim>\<open>reconstructed = np.dot(user_factors, movie_factors)\<close>. The initialisation, the seed and
  the iteration bound stay inside the parameter \<open>model\<close>.
\<close>

definition Factorization_Harness :: "nmf \<Rightarrow> ndarray \<Rightarrow> error + ndarray" where
  "Factorization_Harness model a =
     (case model 20 a of
        Inl e \<Rightarrow> Inl e
      | Inr (user_factors, movie_factors) \<Rightarrow> dot user_factors movie_factors)"

section \<open>Evaluator\<close>

text \<open>
  \<^verbatim>\<open>eval_set = test_data[(test_data['uID'].isin(u_index)) & (test_data['mID'].isin(m_index))]\<close>,
  then the loop over \<^verbatim>\<open>eval_set.itertuples(index=False)\<close> with
  \<^verbatim>\<open>actual.append(row.rating)\<close> and
  \<^verbatim>\<open>predicted.append(reconstructed[u_map[row.uID], m_map[row.mID]])\<close>, and
  \<^verbatim>\<open>score = np.sqrt(mean_squared_error(actual, predicted))\<close>.
\<close>

definition eval_set :: "int list \<Rightarrow> int list \<Rightarrow> table \<Rightarrow> table" where
  "eval_set ui mi test_data =
     filter (\<lambda>row. isin (uID row) ui \<and> isin (mID row) mi) test_data"

fun collect :: "ndarray \<Rightarrow> (int \<rightharpoonup> nat) \<Rightarrow> (int \<rightharpoonup> nat) \<Rightarrow> real list \<times> real list \<Rightarrow> table
    \<Rightarrow> error + (real list \<times> real list)" where
  "collect rc um mm (actual, predicted) [] = Inr (actual, predicted)"
| "collect rc um mm (actual, predicted) (row # rows) =
     (case getitem um (uID row) of
        Inl e \<Rightarrow> Inl e
      | Inr i \<Rightarrow>
          (case getitem mm (mID row) of
             Inl e \<Rightarrow> Inl e
           | Inr j \<Rightarrow>
               (case get_cell rc i j of
                  Inl e \<Rightarrow> Inl e
                | Inr p \<Rightarrow> collect rc um mm (actual @ [rating row], predicted @ [p]) rows)))"

definition score :: "real list \<Rightarrow> real list \<Rightarrow> error + real" where
  "score actual predicted =
     (case mean_squared_error actual predicted of
        Inl e \<Rightarrow> Inl e
      | Inr mse \<Rightarrow> Inr (sqrt mse))"

definition Evaluator :: "ndarray \<Rightarrow> built \<Rightarrow> table \<Rightarrow> error + real" where
  "Evaluator rc b test_data =
     (case collect rc (u_map b) (m_map b) ([], [])
             (eval_set (u_index b) (m_index b) test_data) of
        Inl e \<Rightarrow> Inl e
      | Inr (actual, predicted) \<Rightarrow> score actual predicted)"

section \<open>Auxiliary notions for the statements\<close>

text \<open>An array of shape \<open>r \<times> c\<close>.\<close>

definition shape :: "ndarray \<Rightarrow> nat \<Rightarrow> nat \<Rightarrow> bool" where
  "shape a r c \<longleftrightarrow> length a = r \<and> (\<forall>row \<in> set a. length row = c)"

text \<open>The rows of a table that are stored at cell \<open>(i, j)\<close>, in iteration order, and the
  content of the cell after the fill loop has run over the table.\<close>

definition writes :: "(int \<rightharpoonup> nat) \<Rightarrow> (int \<rightharpoonup> nat) \<Rightarrow> table \<Rightarrow> nat \<Rightarrow> nat \<Rightarrow> table" where
  "writes um mm rows i j = filter (\<lambda>r. um (uID r) = Some i \<and> mm (mID r) = Some j) rows"

definition cell_after :: "(int \<rightharpoonup> nat) \<Rightarrow> (int \<rightharpoonup> nat) \<Rightarrow> table \<Rightarrow> nat \<Rightarrow> nat \<Rightarrow> real \<Rightarrow> real" where
  "cell_after um mm rows i j d = (case writes um mm rows i j of [] \<Rightarrow> d | r # rs \<Rightarrow> rating (last (r # rs)))"

text \<open>A chooser is seeded when, given a \<^verbatim>\<open>random_state\<close>, its draw does not depend on the
  ambient generator: two runs that pass the same seed draw the same elements.\<close>

definition seeded :: "('g, 'a) chooser \<Rightarrow> bool" where
  "seeded pick \<longleftrightarrow> (\<forall>g g' s n xs. pick g (Some s) n xs = pick g' (Some s) n xs)"

text \<open>The predicted rating of a test row, and the root of the mean squared error over a list of
  rows as the specification words it.\<close>

definition predicted_at :: "ndarray \<Rightarrow> built \<Rightarrow> rating_row \<Rightarrow> real" where
  "predicted_at rc b row = rc ! the (u_map b (uID row)) ! the (m_map b (mID row))"

definition rmse_over :: "ndarray \<Rightarrow> built \<Rightarrow> table \<Rightarrow> real" where
  "rmse_over rc b rows =
     sqrt ((\<Sum>row\<leftarrow>rows. (rating row - predicted_at rc b row)\<^sup>2) / real (length rows))"

text \<open>What the pipeline relies on from the factorization: the factors of an array with \<open>r\<close> rows
  and \<open>c\<close> columns have shapes \<open>r \<times> k\<close> and \<open>k \<times> c\<close>.\<close>

definition nmf_contract :: "nmf \<Rightarrow> bool" where
  "nmf_contract model \<longleftrightarrow>
     (\<forall>k a w h. model k a = Inr (w, h) \<longrightarrow> shape w (length a) k \<and> shape h k (ncols a))"

section \<open>Example inputs\<close>

definition sub0 :: table where
  "sub0 = [\<lparr>uID = 1, mID = 10, rating = 3\<rparr>, \<lparr>uID = 2, mID = 20, rating = 4\<rparr>,
           \<lparr>uID = 1, mID = 10, rating = 5\<rparr>]"

definition built0 :: built where
  "built0 = \<lparr>u_index = [1, 2], m_index = [10, 20], u_map = [1 \<mapsto> 0, 2 \<mapsto> 1],
             m_map = [10 \<mapsto> 0, 20 \<mapsto> 1], matrix = [[5, 0], [0, 4]]\<rparr>"

text \<open>An example chooser: a window of the population whose offset comes from the seed, or from
  the ambient generator when no seed is given.\<close>

definition window :: "(nat, int) chooser" where
  "window g random_state n xs =
     take n (drop ((case random_state of None \<Rightarrow> g | Some s \<Rightarrow> s) mod (length xs - n + 1)) xs)"

text \<open>Example test tables: one with rows for unseen ids, one in which every row has an unseen id.\<close>

definition test0 :: table where
  "test0 = [\<lparr>uID = 1, mID = 10, rating = 4\<rparr>, \<lparr>uID = 9, mID = 10, rating = 2\<rparr>,
            \<lparr>uID = 2, mID = 20, rating = 1\<rparr>, \<lparr>uID = 2, mID = 77, rating = 5\<rparr>]"

definition test1 :: table where
  "test1 = [\<lparr>uID = 9, mID = 10, rating = 2\<rparr>, \<lparr>uID = 2, mID = 77, rating = 5\<rparr>]"

text \<open>An example factorization that returns all-ones factors of the right shapes.\<close>

definition ones_model :: nmf where
  "ones_model k a = Inr (map (\<lambda>row. replicate k 1) a, replicate k (replicate (ncols a) 1))"

text \<open>An example chooser that draws the last \<open>n\<close> elements of the population.\<close>

definition last_n :: "(unit, int) chooser" where
  "last_n g random_state n xs = drop (length xs - n) xs"

text \<open>An example training table with 501 distinct users and 501 distinct movies: user 0 rates
  movies 900 and 901, user 1 rates movie 900, and each user \<open>k\<close> from 2 to 500 rates movie
  \<open>1000 + k\<close>.\<close>

definition filler_ids :: "nat list" where
  "filler_ids = [2..<501]"

definition filler :: "nat \<Rightarrow> rating_row" where
  "filler k = \<lparr>uID = int k, mID = 1000 + int k, rating = 1\<rparr>"

definition train0 :: table where
  "train0 = [\<lparr>uID = 0, mID = 900, rating = 3\<rparr>, \<lparr>uID = 0, mID = 901, rating = 4\<rparr>,
             \<lparr>uID = 1, mID = 900, rating = 5\<rparr>] @ map filler filler_ids"

text \<open>An example generator: seeding adds one to the seed, and a draw takes a window of the
  population at the offset given by the generator state.\<close>

definition seed_state :: "nat \<Rightarrow> nat" where
  "seed_state seed = seed + 1"

definition offset_draw :: "nat \<Rightarrow> nat \<Rightarrow> int list \<Rightarrow> int list" where
  "offset_draw s n xs = take n (drop (s mod (length xs - n + 1)) xs)"

section \<open>Properties of the library operations\<close>

lemma set_drop_duplicates: "set (drop_duplicates xs) = set xs"
  by (simp add: drop_duplicates_def)

lemma distinct_drop_duplicates: "distinct (drop_duplicates xs)"
  by (simp add: drop_duplicates_def)

lemma length_drop_duplicates: "length (drop_duplicates xs) = card (set xs)"
proof -
  have "length (drop_duplicates xs) = card (set (drop_duplicates xs))"
    using distinct_drop_duplicates [of xs] by (simp add: distinct_card)
  then show ?thesis by (simp add: set_drop_duplicates)
qed

lemma fold_store_other:
  "u \<notin> set xs \<Longrightarrow> fold (\<lambda>(i, u) d. d(u \<mapsto> i)) (enumerate n xs) d u = d u"
  by (induction xs arbitrary: n d) auto

lemma fold_store_nth:
  "distinct xs \<Longrightarrow> i < length xs \<Longrightarrow>
   fold (\<lambda>(i, u) d. d(u \<mapsto> i)) (enumerate n xs) d (xs ! i) = Some (n + i)"
proof (induction xs arbitrary: n d i)
  case Nil
  then show ?case by simp
next
  case (Cons x xs)
  show ?case
  proof (cases i)
    case 0
    have "fold (\<lambda>(i, u) d. d(u \<mapsto> i)) (enumerate n (x # xs)) d ((x # xs) ! i)
        = fold (\<lambda>(i, u) d. d(u \<mapsto> i)) (enumerate (Suc n) xs) (d(x \<mapsto> n)) x"
      using 0 by (simp del: fun_upd_apply)
    also have "\<dots> = (d(x \<mapsto> n)) x"
      using Cons.prems by (intro fold_store_other) simp
    also have "\<dots> = Some (n + i)"
      using 0 by simp
    finally show ?thesis .
  next
    case (Suc k)
    with Cons.prems Cons.IH [of k "Suc n"] show ?thesis by simp
  qed
qed

lemma index_map_nth:
  "distinct idx \<Longrightarrow> i < length idx \<Longrightarrow> index_map idx (idx ! i) = Some i"
  using fold_store_nth [of idx i 0 Map.empty] by (simp add: index_map_def)

lemma index_map_None: "u \<notin> set idx \<Longrightarrow> index_map idx u = None"
  by (simp add: index_map_def fold_store_other)

lemma index_map_Some_iff:
  assumes "distinct idx"
  shows "index_map idx u = Some i \<longleftrightarrow> i < length idx \<and> idx ! i = u"
proof
  assume h: "index_map idx u = Some i"
  then have "u \<in> set idx" using index_map_None [of u idx] by auto
  then obtain k where k: "k < length idx" "idx ! k = u" by (auto simp: in_set_conv_nth)
  with assms have "index_map idx u = Some k" using index_map_nth [of idx k] by simp
  with h k show "i < length idx \<and> idx ! i = u" by simp
next
  assume "i < length idx \<and> idx ! i = u"
  with assms show "index_map idx u = Some i" using index_map_nth [of idx i] by auto
qed

lemma dom_index_map: "distinct idx \<Longrightarrow> dom (index_map idx) = set idx"
  by (auto simp: index_map_Some_iff in_set_conv_nth dom_def)

section \<open>The fill loop\<close>

lemma cell_after_Nil: "cell_after um mm [] i j d = d"
  by (simp add: cell_after_def writes_def)

lemma cell_after_Cons:
  "cell_after um mm (row # rows) i j d =
     cell_after um mm rows i j (if um (uID row) = Some i \<and> mm (mID row) = Some j then rating row else d)"
  by (auto simp: cell_after_def writes_def split: list.splits)

lemma shape_zeros: "shape (zeros r c) r c"
  by (simp add: shape_def zeros_def)

lemma zeros_nth: "i < r \<Longrightarrow> j < c \<Longrightarrow> zeros r c ! i ! j = 0"
  by (simp add: zeros_def)

lemma shape_update:
  "shape a r c \<Longrightarrow> i < r \<Longrightarrow> shape (a[i := (a ! i)[j := v]]) r c"
  by (auto simp: shape_def dest!: set_update_subset_insert [THEN subsetD])

lemma nth_update2:
  "shape a r c \<Longrightarrow> i0 < r \<Longrightarrow> j0 < c \<Longrightarrow> i < r \<Longrightarrow> j < c \<Longrightarrow>
   a[i0 := (a ! i0)[j0 := v]] ! i ! j = (if i = i0 \<and> j = j0 then v else a ! i ! j)"
  by (auto simp: shape_def nth_list_update)

lemma set_cell_ok:
  "shape a r c \<Longrightarrow> i < r \<Longrightarrow> j < c \<Longrightarrow> set_cell a i j v = Inr (a[i := (a ! i)[j := v]])"
  by (simp add: set_cell_def shape_def)

lemma get_cell_ok:
  "shape a r c \<Longrightarrow> i < r \<Longrightarrow> j < c \<Longrightarrow> get_cell a i j = Inr (a ! i ! j)"
  by (simp add: get_cell_def shape_def)

lemma fill_correct:
  assumes "shape a r c"
    and "\<forall>row \<in> set rows. \<exists>i < r. um (uID row) = Some i"
    and "\<forall>row \<in> set rows. \<exists>j < c. mm (mID row) = Some j"
  shows "\<exists>a'. fill um mm a rows = Inr a' \<and> shape a' r c \<and>
           (\<forall>i < r. \<forall>j < c. a' ! i ! j = cell_after um mm rows i j (a ! i ! j))"
  using assms
proof (induction rows arbitrary: a)
  case Nil
  then show ?case by (simp add: cell_after_Nil)
next
  case (Cons row rows)
  from Cons.prems(2) obtain i0 where i0: "i0 < r" "um (uID row) = Some i0" by auto
  from Cons.prems(3) obtain j0 where j0: "j0 < c" "mm (mID row) = Some j0" by auto
  let ?a1 = "a[i0 := (a ! i0)[j0 := rating row]]"
  have sh1: "shape ?a1 r c" using Cons.prems(1) i0(1) by (rule shape_update)
  have step: "fill um mm a (row # rows) = fill um mm ?a1 rows"
    using i0 j0 set_cell_ok [OF Cons.prems(1) i0(1) j0(1)] by (simp add: getitem_def)
  from Cons.IH [OF sh1] Cons.prems(2,3)
  obtain a' where a': "fill um mm ?a1 rows = Inr a'" "shape a' r c"
    "\<forall>i < r. \<forall>j < c. a' ! i ! j = cell_after um mm rows i j (?a1 ! i ! j)"
    by auto
  have "\<forall>i < r. \<forall>j < c. a' ! i ! j = cell_after um mm (row # rows) i j (a ! i ! j)"
  proof (intro allI impI)
    fix i j assume ij: "i < r" "j < c"
    have "?a1 ! i ! j = (if i = i0 \<and> j = j0 then rating row else a ! i ! j)"
      using Cons.prems(1) i0(1) j0(1) ij by (rule nth_update2)
    moreover have "(um (uID row) = Some i \<and> mm (mID row) = Some j) \<longleftrightarrow> (i = i0 \<and> j = j0)"
      using i0 j0 by auto
    ultimately show "a' ! i ! j = cell_after um mm (row # rows) i j (a ! i ! j)"
      using a'(3) ij by (simp add: cell_after_Cons)
  qed
  with a'(1,2) step show ?case by simp
qed

lemma distinct_unique: "distinct (unique xs)"
  by (simp add: unique_def distinct_drop_duplicates)

lemma set_unique: "set (unique xs) = set xs"
  by (simp add: unique_def set_drop_duplicates)

lemma length_unique: "length (unique xs) = card (set xs)"
  by (simp add: unique_def length_drop_duplicates)

lemma index_map_unique_Some:
  "x \<in> set xs \<Longrightarrow> \<exists>i < length (unique xs). index_map (unique xs) x = Some i"
proof -
  assume "x \<in> set xs"
  then have "x \<in> set (unique xs)" by (simp add: set_unique)
  then obtain i where "i < length (unique xs)" "unique xs ! i = x"
    by (auto simp: in_set_conv_nth)
  then show ?thesis using index_map_nth [OF distinct_unique, of i xs] by auto
qed

lemma Matrix_Builder_result:
  "\<exists>a. Matrix_Builder sub =
         Inr \<lparr>u_index = unique (map uID sub), m_index = unique (map mID sub),
              u_map = index_map (unique (map uID sub)),
              m_map = index_map (unique (map mID sub)), matrix = a\<rparr> \<and>
       shape a (length (unique (map uID sub))) (length (unique (map mID sub))) \<and>
       (\<forall>i < length (unique (map uID sub)). \<forall>j < length (unique (map mID sub)).
          a ! i ! j = cell_after (index_map (unique (map uID sub)))
                        (index_map (unique (map mID sub))) sub i j 0)"
proof -
  let ?ui = "unique (map uID sub)" and ?mi = "unique (map mID sub)"
  have u: "\<forall>row \<in> set sub. \<exists>i < length ?ui. index_map ?ui (uID row) = Some i"
    by (simp add: index_map_unique_Some)
  have m: "\<forall>row \<in> set sub. \<exists>j < length ?mi. index_map ?mi (mID row) = Some j"
    by (simp add: index_map_unique_Some)
  from fill_correct [OF shape_zeros u m]
  obtain a where a: "fill (index_map ?ui) (index_map ?mi) (zeros (length ?ui) (length ?mi)) sub = Inr a"
    "shape a (length ?ui) (length ?mi)"
    "\<forall>i < length ?ui. \<forall>j < length ?mi.
       a ! i ! j = cell_after (index_map ?ui) (index_map ?mi) sub i j (zeros (length ?ui) (length ?mi) ! i ! j)"
    by blast
  from a(3) have "\<forall>i < length ?ui. \<forall>j < length ?mi.
       a ! i ! j = cell_after (index_map ?ui) (index_map ?mi) sub i j 0"
    by (simp add: zeros_nth)
  with a(1,2) show ?thesis by (simp add: Matrix_Builder_def Let_def)
qed

lemma index_map_inj:
  "distinct idx \<Longrightarrow> index_map idx x = Some i \<Longrightarrow> index_map idx y = Some i \<Longrightarrow> x = y"
  by (simp add: index_map_Some_iff)

text \<open>
  Claim C2. For every sampled training subset the Matrix Builder succeeds, and for every
  (user, movie) pair present in the subset the matrix cell at (index(user), index(movie)) is
  the rating of the last subset row for that pair in iteration order (last write wins on
  duplicates); every cell that no subset row writes is 0.
\<close>

theorem matrix_cells_last_write_wins:
  "\<exists>b. Matrix_Builder sub = Inr b \<and>
     (\<forall>row \<in> set sub. \<exists>i j. u_map b (uID row) = Some i \<and> m_map b (mID row) = Some j \<and>
        get_cell (matrix b) i j =
          Inr (rating (last (filter (\<lambda>r. uID r = uID row \<and> mID r = mID row) sub)))) \<and>
     (\<forall>i < length (u_index b). \<forall>j < length (m_index b).
        (\<forall>row \<in> set sub. \<not> (u_map b (uID row) = Some i \<and> m_map b (mID row) = Some j)) \<longrightarrow>
        get_cell (matrix b) i j = Inr 0)"
proof -
  let ?ui = "unique (map uID sub)" and ?mi = "unique (map mID sub)"
  let ?um = "index_map ?ui" and ?mm = "index_map ?mi"
  from Matrix_Builder_result [of sub] obtain a where
    b: "Matrix_Builder sub = Inr \<lparr>u_index = ?ui, m_index = ?mi, u_map = ?um, m_map = ?mm, matrix = a\<rparr>"
    and sh: "shape a (length ?ui) (length ?mi)"
    and cells: "\<forall>i < length ?ui. \<forall>j < length ?mi. a ! i ! j = cell_after ?um ?mm sub i j 0"
    by blast
  have written: "\<exists>i j. ?um (uID row) = Some i \<and> ?mm (mID row) = Some j \<and>
        get_cell a i j = Inr (rating (last (filter (\<lambda>r. uID r = uID row \<and> mID r = mID row) sub)))"
    if row: "row \<in> set sub" for row
  proof -
    from row obtain i where i: "i < length ?ui" "?um (uID row) = Some i"
      using index_map_unique_Some [of "uID row" "map uID sub"] by auto
    from row obtain j where j: "j < length ?mi" "?mm (mID row) = Some j"
      using index_map_unique_Some [of "mID row" "map mID sub"] by auto
    have same: "(?um (uID r) = Some i \<and> ?mm (mID r) = Some j) \<longleftrightarrow> (uID r = uID row \<and> mID r = mID row)" for r
      using i(2) j(2) index_map_inj [OF distinct_unique, of "map uID sub" "uID r" i "uID row"]
        index_map_inj [OF distinct_unique, of "map mID sub" "mID r" j "mID row"] by auto
    have w: "writes ?um ?mm sub i j = filter (\<lambda>r. uID r = uID row \<and> mID r = mID row) sub"
      by (simp add: writes_def same)
    have "row \<in> set (filter (\<lambda>r. uID r = uID row \<and> mID r = mID row) sub)"
      using row by simp
    then have ne: "filter (\<lambda>r. uID r = uID row \<and> mID r = mID row) sub \<noteq> []"
      by (metis empty_iff list.set(1))
    have "a ! i ! j = rating (last (filter (\<lambda>r. uID r = uID row \<and> mID r = mID row) sub))"
      using cells i(1) j(1) ne by (simp add: cell_after_def w split: list.splits)
    then show ?thesis using i j get_cell_ok [OF sh i(1) j(1)] by auto
  qed
  have unwritten: "get_cell a i j = Inr 0"
    if "i < length ?ui" "j < length ?mi"
      "\<forall>row \<in> set sub. \<not> (?um (uID row) = Some i \<and> ?mm (mID row) = Some j)" for i j
  proof -
    have "writes ?um ?mm sub i j = []"
      using that(3) by (auto simp: writes_def filter_empty_conv)
    then have "a ! i ! j = 0" using cells that(1,2) by (simp add: cell_after_def)
    then show ?thesis using get_cell_ok [OF sh that(1,2)] by simp
  qed
  show ?thesis using b written unwritten by simp
qed

lemma Matrix_Builder_sub0: "Matrix_Builder sub0 = Inr built0"
  by (simp add: Matrix_Builder_def sub0_def built0_def unique_def drop_duplicates_def zeros_def
      index_map_def getitem_def set_cell_def Let_def)

theorem matrix_cells_last_write_wins_witness:
  "Matrix_Builder sub0 = Inr built0 \<and> get_cell (matrix built0) 0 0 = Inr 5 \<and>
   get_cell (matrix built0) 0 1 = Inr 0"
proof -
  from matrix_cells_last_write_wins [of sub0] Matrix_Builder_sub0
  have w: "\<forall>row \<in> set sub0. \<exists>i j. u_map built0 (uID row) = Some i \<and> m_map built0 (mID row) = Some j \<and>
        get_cell (matrix built0) i j =
          Inr (rating (last (filter (\<lambda>r. uID r = uID row \<and> mID r = mID row) sub0)))"
    and z: "\<forall>i < length (u_index built0). \<forall>j < length (m_index built0).
        (\<forall>row \<in> set sub0. \<not> (u_map built0 (uID row) = Some i \<and> m_map built0 (mID row) = Some j)) \<longrightarrow>
        get_cell (matrix built0) i j = Inr 0"
    by auto
  from w have "get_cell (matrix built0) 0 0 = Inr 5"
    by (simp add: sub0_def built0_def)
  moreover have "get_cell (matrix built0) 0 1 = Inr 0"
  proof -
    have "\<forall>row \<in> set sub0. \<not> (u_map built0 (uID row) = Some 0 \<and> m_map built0 (mID row) = Some 1)"
      by (simp add: sub0_def built0_def)
    moreover have "0 < length (u_index built0)" "1 < length (m_index built0)"
      by (simp_all add: built0_def)
    ultimately show ?thesis using z by blast
  qed
  ultimately show ?thesis using Matrix_Builder_sub0 by simp
qed

section \<open>Properties of the Sampler\<close>

lemma seeded_selected_ids:
  assumes "seeded pick"
  shows "selected_ids pick g n seed col = selected_ids pick g' n seed col"
  using assms by (simp add: selected_ids_def sample_def seeded_def)

lemma seeded_Sampler:
  assumes "seeded pick"
  shows "selected_users pick g train_data = selected_users pick g' train_data"
    and "selected_movies pick g train_data = selected_movies pick g' train_data"
    and "Sampler pick g train_data = Sampler pick g' train_data"
proof -
  show users: "selected_users pick g train_data = selected_users pick g' train_data"
    using seeded_selected_ids [OF assms] by (simp add: selected_users_def)
  show movies: "selected_movies pick g train_data = selected_movies pick g' train_data"
    using seeded_selected_ids [OF assms] by (simp add: selected_movies_def)
  show "Sampler pick g train_data = Sampler pick g' train_data"
    unfolding Sampler_def users movies by (rule refl)
qed

text \<open>
  Claim C3. If the training table has fewer than 500 distinct user ids or fewer than 500
  distinct movie ids, the Sampler fails with \<^verbatim>\<open>InsufficientDataError\<close>; it returns no
  (truncated) sample.
\<close>

theorem sampler_insufficient_data:
  assumes "card (uID ` set train_data) < 500 \<or> card (mID ` set train_data) < 500"
  shows "Sampler pick g train_data = Inl InsufficientDataError"
proof -
  have u: "length (drop_duplicates (map uID train_data)) = card (uID ` set train_data)"
    by (simp add: length_drop_duplicates)
  have m: "length (drop_duplicates (map mID train_data)) = card (mID ` set train_data)"
    by (simp add: length_drop_duplicates)
  show ?thesis
  proof (cases "card (uID ` set train_data) < 500")
    case True
    then show ?thesis
      using u by (simp add: Sampler_def selected_users_def selected_ids_def sample_def)
  next
    case False
    with assms have "card (mID ` set train_data) < 500" by simp
    then show ?thesis
      using u m False
      by (simp add: Sampler_def selected_users_def selected_movies_def selected_ids_def sample_def)
  qed
qed

theorem sampler_insufficient_data_witness:
  "card (uID ` set sub0) < 500 \<and> Sampler window 0 sub0 = Inl InsufficientDataError"
proof -
  have "card (uID ` set sub0) \<le> length sub0"
    by (metis card_image_le card_length List.finite_set le_trans)
  then have h: "card (uID ` set sub0) < 500" by (simp add: sub0_def)
  with sampler_insufficient_data [of sub0 window 0] show ?thesis by simp
qed

section \<open>Empty evaluation sets and the error value\<close>

text \<open>
  Claim C4. If no test row has both its user id and its movie id in the index arrays, the
  Evaluator fails with \<^verbatim>\<open>EmptyEvaluationSetError\<close> and computes no RMSE.
\<close>

theorem evaluator_empty_set:
  assumes "\<forall>row \<in> set test_data. \<not> (isin (uID row) (u_index b) \<and> isin (mID row) (m_index b))"
  shows "Evaluator rc b test_data = Inl EmptyEvaluationSetError"
proof -
  from assms have "eval_set (u_index b) (m_index b) test_data = []"
    by (auto simp: eval_set_def filter_empty_conv)
  then show ?thesis by (simp add: Evaluator_def score_def mean_squared_error_def)
qed

theorem evaluator_empty_set_witness:
  "eval_set (u_index built0) (m_index built0) test1 = [] \<and>
   Evaluator [[5, 0], [0, 4]] built0 test1 = Inl EmptyEvaluationSetError"
proof -
  have h: "\<forall>row \<in> set test1. \<not> (isin (uID row) (u_index built0) \<and> isin (mID row) (m_index built0))"
    by (simp add: test1_def built0_def isin_def)
  have "eval_set (u_index built0) (m_index built0) test1 = []"
    by (simp add: eval_set_def test1_def built0_def isin_def)
  with h evaluator_empty_set [of test1 built0 "[[5, 0], [0, 4]]"] show ?thesis by simp
qed

lemma sum_squares_zero_iff:
  "length xs = length ys \<Longrightarrow>
   sum_list (map2 (\<lambda>a p. (a - p)\<^sup>2) xs ys) = 0 \<longleftrightarrow> xs = (ys :: real list)"
proof (induction xs ys rule: list_induct2)
  case Nil
  then show ?case by simp
next
  case (Cons x xs y ys)
  have nn: "0 \<le> sum_list (map2 (\<lambda>a p. (a - p)\<^sup>2) xs ys)"
    by (rule sum_list_nonneg) auto
  have "(x - y)\<^sup>2 + sum_list (map2 (\<lambda>a p. (a - p)\<^sup>2) xs ys) = 0
        \<longleftrightarrow> (x - y)\<^sup>2 = 0 \<and> sum_list (map2 (\<lambda>a p. (a - p)\<^sup>2) xs ys) = 0"
    using nn by (simp add: add_nonneg_eq_0_iff)
  with Cons.IH show ?case by simp
qed

text \<open>
  Claim C6. For every non-empty list of (actual, predicted) pairs the computed RMSE exists, is
  at least 0, and is 0 if and only if predicted equals actual in every pair.
\<close>

theorem rmse_nonneg_zero_iff:
  assumes "length actual = length predicted" and "actual \<noteq> []"
  shows "\<exists>s. score actual predicted = Inr s \<and> 0 \<le> s \<and> (s = 0 \<longleftrightarrow> predicted = actual)"
proof -
  let ?S = "sum_list (map2 (\<lambda>a p. (a - p)\<^sup>2) actual predicted)"
  have nn: "0 \<le> ?S" by (rule sum_list_nonneg) auto
  have sc: "score actual predicted = Inr (sqrt (?S / real (length actual)))"
    using assms(2) by (simp add: score_def mean_squared_error_def)
  have pos: "0 < real (length actual)" using assms(2) by simp
  have "sqrt (?S / real (length actual)) = 0 \<longleftrightarrow> ?S = 0" using pos by simp
  also have "\<dots> \<longleftrightarrow> predicted = actual"
    using sum_squares_zero_iff [OF assms(1)] by auto
  finally have z: "sqrt (?S / real (length actual)) = 0 \<longleftrightarrow> predicted = actual" .
  have "0 \<le> sqrt (?S / real (length actual))" using nn pos by simp
  with sc z show ?thesis by simp
qed

theorem rmse_nonneg_zero_iff_witness:
  "length [4, 1 :: real] = length [4, 1 :: real] \<and> [4, 1 :: real] \<noteq> [] \<and>
   score [4, 1] [4, 1] = Inr 0 \<and> (\<exists>s. score [3, 1] [0, 5] = Inr s \<and> 0 \<le> s \<and> s \<noteq> 0)"
proof -
  from rmse_nonneg_zero_iff [of "[4, 1]" "[4, 1]"] have a: "score [4, 1] [4, 1] = Inr 0"
    by auto
  from rmse_nonneg_zero_iff [of "[3, 1]" "[0, 5]"]
  have b: "\<exists>s. score [3, 1] [0, 5] = Inr s \<and> 0 \<le> s \<and> s \<noteq> 0" by simp
  from a b show ?thesis by simp
qed

section \<open>Index maps\<close>

lemma Matrix_Builder_fields:
  assumes "Matrix_Builder sub = Inr b"
  shows "u_index b = unique (map uID sub)" "m_index b = unique (map mID sub)"
    "u_map b = index_map (unique (map uID sub))" "m_map b = index_map (unique (map mID sub))"
    "shape (matrix b) (length (u_index b)) (length (m_index b))"
  using assms Matrix_Builder_result [of sub] by auto

lemma bij_betw_index_map:
  assumes "distinct idx"
  shows "bij_betw (index_map idx) (set idx) (Some ` {0..<length idx})"
proof -
  have inj: "inj_on (index_map idx) (set idx)"
  proof (rule inj_onI)
    fix x y assume "x \<in> set idx" "y \<in> set idx" and eq: "index_map idx x = index_map idx y"
    from \<open>x \<in> set idx\<close> obtain i where i: "i < length idx" "idx ! i = x"
      unfolding in_set_conv_nth by blast
    have "index_map idx (idx ! i) = Some i"
      by (rule index_map_nth [OF assms i(1)])
    then have xi: "index_map idx x = Some i"
      unfolding i(2) .
    then have yi: "index_map idx y = Some i"
      unfolding eq .
    show "x = y" by (rule index_map_inj [OF assms xi yi])
  qed
  have img: "index_map idx ` set idx = Some ` {0..<length idx}"
  proof (intro set_eqI iffI)
    fix v assume "v \<in> index_map idx ` set idx"
    then obtain x where x: "x \<in> set idx" "v = index_map idx x" by blast
    from x(1) obtain i where i: "i < length idx" "idx ! i = x"
      unfolding in_set_conv_nth by blast
    have "index_map idx (idx ! i) = Some i"
      by (rule index_map_nth [OF assms i(1)])
    with x(2) i show "v \<in> Some ` {0..<length idx}" by simp
  next
    fix v assume "v \<in> Some ` {0..<length idx}"
    then obtain i where i: "i < length idx" "v = Some i" by auto
    have "index_map idx (idx ! i) = Some i"
      by (rule index_map_nth [OF assms i(1)])
    moreover have "idx ! i \<in> set idx" using i(1) by simp
    ultimately show "v \<in> index_map idx ` set idx" using i(2) by (metis image_eqI)
  qed
  from inj img show ?thesis by (simp add: bij_betw_def)
qed

text \<open>
  Claim C8. The id-to-index maps of the Matrix Builder are bijections: the user map sends the
  distinct user ids of the subset one-to-one onto the row indices \<open>[0, U)\<close>, the movie map
  sends the distinct movie ids one-to-one onto the column indices \<open>[0, M)\<close>, no other id
  is a key, and the matrix has shape \<open>U \<times> M\<close>.
\<close>

theorem index_maps_bijective:
  assumes "Matrix_Builder sub = Inr b"
  shows "bij_betw (u_map b) (uID ` set sub) (Some ` {0..<length (u_index b)}) \<and>
         bij_betw (m_map b) (mID ` set sub) (Some ` {0..<length (m_index b)}) \<and>
         dom (u_map b) = uID ` set sub \<and> dom (m_map b) = mID ` set sub \<and>
         shape (matrix b) (length (u_index b)) (length (m_index b))"
proof -
  note f = Matrix_Builder_fields [OF assms]
  have u: "bij_betw (u_map b) (uID ` set sub) (Some ` {0..<length (u_index b)})"
    using bij_betw_index_map [OF distinct_unique, of "map uID sub"]
    by (simp add: f(1,3) set_unique)
  have m: "bij_betw (m_map b) (mID ` set sub) (Some ` {0..<length (m_index b)})"
    using bij_betw_index_map [OF distinct_unique, of "map mID sub"]
    by (simp add: f(2,4) set_unique)
  have du: "dom (u_map b) = uID ` set sub"
    by (simp add: f(3) dom_index_map distinct_unique set_unique)
  have dm: "dom (m_map b) = mID ` set sub"
    by (simp add: f(4) dom_index_map distinct_unique set_unique)
  from u m du dm f(5) show ?thesis by simp
qed

theorem index_maps_bijective_witness:
  "Matrix_Builder sub0 = Inr built0 \<and>
   bij_betw (u_map built0) (uID ` set sub0) (Some ` {0..<length (u_index built0)}) \<and>
   bij_betw (m_map built0) (mID ` set sub0) (Some ` {0..<length (m_index built0)}) \<and>
   dom (u_map built0) = {1, 2} \<and> dom (m_map built0) = {10, 20}"
proof -
  note t = index_maps_bijective [OF Matrix_Builder_sub0]
  from t have "dom (u_map built0) = uID ` set sub0" by simp
  then have du: "dom (u_map built0) = {1, 2}" by (auto simp: sub0_def)
  from t have "dom (m_map built0) = mID ` set sub0" by simp
  then have dm: "dom (m_map built0) = {10, 20}" by (auto simp: sub0_def)
  from t du dm Matrix_Builder_sub0 show ?thesis by simp
qed

section \<open>The evaluation loop\<close>

lemma collect_correct:
  assumes "shape rc r c"
    and "\<forall>row \<in> set rows. \<exists>i < r. um (uID row) = Some i"
    and "\<forall>row \<in> set rows. \<exists>j < c. mm (mID row) = Some j"
  shows "collect rc um mm (actual, predicted) rows =
           Inr (actual @ map rating rows,
                predicted @ map (\<lambda>row. rc ! the (um (uID row)) ! the (mm (mID row))) rows)"
  using assms(2,3)
proof (induction rows arbitrary: actual predicted)
  case Nil
  then show ?case by simp
next
  case (Cons row rows)
  from Cons.prems(1) obtain i where i: "i < r" "um (uID row) = Some i" by auto
  from Cons.prems(2) obtain j where j: "j < c" "mm (mID row) = Some j" by auto
  have "collect rc um mm (actual, predicted) (row # rows) =
          collect rc um mm (actual @ [rating row], predicted @ [rc ! i ! j]) rows"
    using i j get_cell_ok [OF assms(1) i(1) j(1)] by (simp add: getitem_def)
  also have "\<dots> = Inr ((actual @ [rating row]) @ map rating rows,
       (predicted @ [rc ! i ! j]) @ map (\<lambda>row. rc ! the (um (uID row)) ! the (mm (mID row))) rows)"
    using Cons.prems by (intro Cons.IH) auto
  finally show ?case using i(2) j(2) by simp
qed

lemma eval_set_rows_indexed:
  assumes "Matrix_Builder sub = Inr b"
    and "row \<in> set (eval_set (u_index b) (m_index b) test_data)"
  shows "\<exists>i < length (u_index b). u_map b (uID row) = Some i"
    and "\<exists>j < length (m_index b). m_map b (mID row) = Some j"
proof -
  note f = Matrix_Builder_fields [OF assms(1)]
  from assms(2) have "uID row \<in> set (unique (map uID sub))" "mID row \<in> set (unique (map mID sub))"
    by (simp_all add: eval_set_def isin_def f(1,2))
  then have "uID row \<in> set (map uID sub)" "mID row \<in> set (map mID sub)"
    by (simp_all add: set_unique)
  then show "\<exists>i < length (u_index b). u_map b (uID row) = Some i"
    and "\<exists>j < length (m_index b). m_map b (mID row) = Some j"
    using index_map_unique_Some [of "uID row" "map uID sub"]
      index_map_unique_Some [of "mID row" "map mID sub"]
    by (simp_all add: f(1-4))
qed

lemma Evaluator_score:
  assumes "Matrix_Builder sub = Inr b"
    and "shape rc (length (u_index b)) (length (m_index b))"
  shows "Evaluator rc b test_data =
           score (map rating (eval_set (u_index b) (m_index b) test_data))
                 (map (predicted_at rc b) (eval_set (u_index b) (m_index b) test_data))"
proof -
  let ?E = "eval_set (u_index b) (m_index b) test_data"
  have "collect rc (u_map b) (m_map b) ([], []) ?E =
          Inr ([] @ map rating ?E,
               [] @ map (\<lambda>row. rc ! the (u_map b (uID row)) ! the (m_map b (mID row))) ?E)"
    using eval_set_rows_indexed [OF assms(1)] by (intro collect_correct [OF assms(2)]) blast+
  then show ?thesis by (simp add: Evaluator_def predicted_at_def [abs_def])
qed

lemma sum_list_map2_same:
  "sum_list (map2 f (map g xs) (map h xs)) = (\<Sum>x\<leftarrow>xs. f (g x) (h x))"
  by (induction xs) simp_all

text \<open>
  Claim C5. When at least one test row is retained, the Evaluator returns the square root of
  the mean of (actual rating - predicted rating) squared over exactly the retained rows, the
  predicted rating of a row being the reconstructed-matrix entry at the indices of its ids.
\<close>

theorem evaluator_rmse:
  assumes "Matrix_Builder sub = Inr b"
    and "shape rc (length (u_index b)) (length (m_index b))"
    and "eval_set (u_index b) (m_index b) test_data \<noteq> []"
  shows "Evaluator rc b test_data =
           Inr (rmse_over rc b (eval_set (u_index b) (m_index b) test_data))"
  using assms(3)
  by (simp add: Evaluator_score [OF assms(1,2)] score_def mean_squared_error_def rmse_over_def
      sum_list_map2_same)

lemma eval_set_test0: "eval_set (u_index built0) (m_index built0) test0 =
    [\<lparr>uID = 1, mID = 10, rating = 4\<rparr>, \<lparr>uID = 2, mID = 20, rating = 1\<rparr>]"
  by (simp add: eval_set_def built0_def test0_def isin_def)

theorem evaluator_rmse_witness:
  "Matrix_Builder sub0 = Inr built0 \<and>
   shape [[4, 7], [7, 1]] (length (u_index built0)) (length (m_index built0)) \<and>
   eval_set (u_index built0) (m_index built0) test0 \<noteq> [] \<and>
   Evaluator [[4, 7], [7, 1]] built0 test0 = Inr 0 \<and>
   Evaluator [[2, 7], [7, 3]] built0 test0 = Inr 2"
proof -
  have sh: "shape [[4, 7], [7, 1]] (length (u_index built0)) (length (m_index built0))"
    "shape [[2, 7], [7, 3]] (length (u_index built0)) (length (m_index built0))"
    by (simp_all add: shape_def built0_def)
  have ne: "eval_set (u_index built0) (m_index built0) test0 \<noteq> []"
    by (simp add: eval_set_test0)
  have a: "Evaluator [[4, 7], [7, 1]] built0 test0 = Inr 0"
  proof -
    have "rmse_over [[4, 7], [7, 1]] built0
            [\<lparr>uID = 1, mID = 10, rating = 4\<rparr>, \<lparr>uID = 2, mID = 20, rating = 1\<rparr>] = 0"
      by (simp add: rmse_over_def predicted_at_def built0_def)
    with evaluator_rmse [OF Matrix_Builder_sub0 sh(1) ne] show ?thesis
      unfolding eval_set_test0 by simp
  qed
  have b: "Evaluator [[2, 7], [7, 3]] built0 test0 = Inr 2"
  proof -
    have "rmse_over [[2, 7], [7, 3]] built0
            [\<lparr>uID = 1, mID = 10, rating = 4\<rparr>, \<lparr>uID = 2, mID = 20, rating = 1\<rparr>] = 2"
      by (simp add: rmse_over_def predicted_at_def built0_def)
    with evaluator_rmse [OF Matrix_Builder_sub0 sh(2) ne] show ?thesis
      unfolding eval_set_test0 by simp
  qed
  from Matrix_Builder_sub0 sh(1) ne a b show ?thesis by simp
qed

section \<open>The membership filter\<close>

lemma eval_set_idem: "eval_set ui mi (eval_set ui mi test_data) = eval_set ui mi test_data"
  by (simp add: eval_set_def)

lemma Evaluator_eval_set:
  "Evaluator rc b (eval_set (u_index b) (m_index b) test_data) = Evaluator rc b test_data"
  by (simp add: Evaluator_def eval_set_idem)

text \<open>
  Claim C7. The Evaluator retains exactly the test rows whose user id and movie id are both
  keys of the index maps, that is, both occur in the sampled training subset. Every other
  row is dropped and contributes nothing: the result is that of the retained rows alone, and
  adding a row with an unseen id anywhere in the test table does not change it.
\<close>

theorem evaluator_retains_known_ids:
  assumes "Matrix_Builder sub = Inr b"
  shows "eval_set (u_index b) (m_index b) test_data =
           filter (\<lambda>row. uID row \<in> dom (u_map b) \<and> mID row \<in> dom (m_map b)) test_data \<and>
         eval_set (u_index b) (m_index b) test_data =
           filter (\<lambda>row. uID row \<in> uID ` set sub \<and> mID row \<in> mID ` set sub) test_data \<and>
         Evaluator rc b test_data =
           Evaluator rc b (filter (\<lambda>row. uID row \<in> uID ` set sub \<and> mID row \<in> mID ` set sub) test_data) \<and>
         (uID extra \<notin> uID ` set sub \<or> mID extra \<notin> mID ` set sub \<longrightarrow>
            Evaluator rc b (xs @ extra # ys) = Evaluator rc b (xs @ ys))"
proof -
  note f = Matrix_Builder_fields [OF assms]
  have su: "set (u_index b) = uID ` set sub" and sm: "set (m_index b) = mID ` set sub"
    by (simp_all add: f(1,2) set_unique)
  have du: "dom (u_map b) = uID ` set sub" and dm: "dom (m_map b) = mID ` set sub"
    by (simp_all add: f(3,4) dom_index_map distinct_unique set_unique)
  have keep: "eval_set (u_index b) (m_index b) t =
      filter (\<lambda>row. uID row \<in> uID ` set sub \<and> mID row \<in> mID ` set sub) t" for t
    by (simp add: eval_set_def isin_def su sm)
  have a: "eval_set (u_index b) (m_index b) test_data =
      filter (\<lambda>row. uID row \<in> dom (u_map b) \<and> mID row \<in> dom (m_map b)) test_data"
    by (simp add: keep du dm)
  have c: "Evaluator rc b test_data =
      Evaluator rc b (filter (\<lambda>row. uID row \<in> uID ` set sub \<and> mID row \<in> mID ` set sub) test_data)"
    using Evaluator_eval_set [of rc b test_data] by (simp add: keep)
  have d: "Evaluator rc b (xs @ extra # ys) = Evaluator rc b (xs @ ys)"
    if "uID extra \<notin> uID ` set sub \<or> mID extra \<notin> mID ` set sub"
  proof -
    have "eval_set (u_index b) (m_index b) (xs @ extra # ys) =
          eval_set (u_index b) (m_index b) (xs @ ys)"
      using that by (auto simp: keep)
    then show ?thesis by (simp add: Evaluator_def)
  qed
  from a keep [of test_data] c d show ?thesis by blast
qed

theorem evaluator_retains_known_ids_witness:
  "Matrix_Builder sub0 = Inr built0 \<and>
   eval_set (u_index built0) (m_index built0) test0 =
     [\<lparr>uID = 1, mID = 10, rating = 4\<rparr>, \<lparr>uID = 2, mID = 20, rating = 1\<rparr>] \<and>
   Evaluator [[2, 7], [7, 3]] built0 test0 =
     Evaluator [[2, 7], [7, 3]] built0
       [\<lparr>uID = 1, mID = 10, rating = 4\<rparr>, \<lparr>uID = 2, mID = 20, rating = 1\<rparr>] \<and>
   Evaluator [[2, 7], [7, 3]] built0
       ([\<lparr>uID = 1, mID = 10, rating = 4\<rparr>] @ \<lparr>uID = 9, mID = 10, rating = 2\<rparr> #
        [\<lparr>uID = 2, mID = 20, rating = 1\<rparr>]) =
     Evaluator [[2, 7], [7, 3]] built0
       ([\<lparr>uID = 1, mID = 10, rating = 4\<rparr>] @ [\<lparr>uID = 2, mID = 20, rating = 1\<rparr>])"
proof -
  note t = evaluator_retains_known_ids [OF Matrix_Builder_sub0,
      of test0 "[[2, 7], [7, 3]]" "\<lparr>uID = 9, mID = 10, rating = 2\<rparr>"
         "[\<lparr>uID = 1, mID = 10, rating = 4\<rparr>]" "[\<lparr>uID = 2, mID = 20, rating = 1\<rparr>]"]
  have keep: "filter (\<lambda>row. uID row \<in> uID ` set sub0 \<and> mID row \<in> mID ` set sub0) test0 =
      [\<lparr>uID = 1, mID = 10, rating = 4\<rparr>, \<lparr>uID = 2, mID = 20, rating = 1\<rparr>]"
    by (simp add: sub0_def test0_def)
  have unseen: "uID \<lparr>uID = 9, mID = 10, rating = 2\<rparr> \<notin> uID ` set sub0"
    by (simp add: sub0_def)
  have e: "eval_set (u_index built0) (m_index built0) test0 =
      [\<lparr>uID = 1, mID = 10, rating = 4\<rparr>, \<lparr>uID = 2, mID = 20, rating = 1\<rparr>]"
    using t [THEN conjunct2, THEN conjunct1] unfolding keep .
  have r: "Evaluator [[2, 7], [7, 3]] built0 test0 =
     Evaluator [[2, 7], [7, 3]] built0
       [\<lparr>uID = 1, mID = 10, rating = 4\<rparr>, \<lparr>uID = 2, mID = 20, rating = 1\<rparr>]"
    using t [THEN conjunct2, THEN conjunct2, THEN conjunct1] unfolding keep .
  have x: "Evaluator [[2, 7], [7, 3]] built0
       ([\<lparr>uID = 1, mID = 10, rating = 4\<rparr>] @ \<lparr>uID = 9, mID = 10, rating = 2\<rparr> #
        [\<lparr>uID = 2, mID = 20, rating = 1\<rparr>]) =
     Evaluator [[2, 7], [7, 3]] built0
       ([\<lparr>uID = 1, mID = 10, rating = 4\<rparr>] @ [\<lparr>uID = 2, mID = 20, rating = 1\<rparr>])"
    using t [THEN conjunct2, THEN conjunct2, THEN conjunct2] unseen by blast
  from Matrix_Builder_sub0 e r x show ?thesis by blast
qed

section \<open>Shape of the reconstructed matrix\<close>

lemma ncols_shape: "shape a r c \<Longrightarrow> 0 < r \<Longrightarrow> ncols a = c"
  by (cases a) (auto simp: shape_def ncols_def)

lemma dot_shape:
  assumes "shape w r k" and "shape h k c" and "0 < k"
  shows "\<exists>rc. dot w h = Inr rc \<and> shape rc r c"
proof -
  have lh: "length h = k" using assms(2) by (simp add: shape_def)
  have nc: "ncols h = c" using assms(2,3) by (rule ncols_shape)
  have c1: "\<forall>row \<in> set w. length row = length h"
    using assms(1) lh by (simp add: shape_def)
  have c2: "\<forall>row \<in> set h. length row = ncols h"
    using assms(2) nc by (simp add: shape_def)
  have "dot w h = Inr (map (\<lambda>row. map (\<lambda>j. \<Sum>k\<leftarrow>[0..<length h]. row ! k * h ! k ! j) [0..<ncols h]) w)"
    using c1 c2 by (simp add: dot_def)
  moreover have "shape (map (\<lambda>row. map (\<lambda>j. \<Sum>k\<leftarrow>[0..<length h]. row ! k * h ! k ! j) [0..<ncols h]) w) r c"
    using assms(1) nc by (auto simp: shape_def)
  ultimately show ?thesis by blast
qed

lemma harness_shape:
  assumes "nmf_contract model" and "shape a r c" and "Factorization_Harness model a = Inr rc"
  shows "shape rc r c"
proof -
  from assms(3) obtain w h where wh: "model 20 a = Inr (w, h)" and d: "dot w h = Inr rc"
    by (auto simp: Factorization_Harness_def split: sum.splits)
  from assms(1) wh have sw: "shape w (length a) 20" and sh: "shape h 20 (ncols a)"
    by (auto simp: nmf_contract_def)
  from dot_shape [OF sw sh] d have rc: "shape rc (length a) (ncols a)" by auto
  have la: "length a = r" using assms(2) by (simp add: shape_def)
  show ?thesis
  proof (cases "r = 0")
    case True
    with rc la show ?thesis by (simp add: shape_def)
  next
    case False
    then have "ncols a = c" using ncols_shape [OF assms(2)] by simp
    with rc la show ?thesis by simp
  qed
qed

text \<open>
  Claim C10. For every test row retained by the membership filter the lookups succeed: its
  user id is a key of the user map, its movie id is a key of the movie map, and the cell at
  the two indices is inside the reconstructed matrix. The Evaluator therefore never fails
  with \<^verbatim>\<open>KeyError\<close> or \<^verbatim>\<open>IndexError\<close>.
\<close>

theorem evaluator_lookups_succeed:
  assumes "Matrix_Builder sub = Inr b" and "nmf_contract model"
    and "Factorization_Harness model (matrix b) = Inr rc"
  shows "(\<forall>row \<in> set (eval_set (u_index b) (m_index b) test_data).
            \<exists>i j p. getitem (u_map b) (uID row) = Inr i \<and> getitem (m_map b) (mID row) = Inr j \<and>
              get_cell rc i j = Inr p) \<and>
         Evaluator rc b test_data \<noteq> Inl KeyError \<and> Evaluator rc b test_data \<noteq> Inl IndexError"
proof -
  note f = Matrix_Builder_fields [OF assms(1)]
  have sh: "shape rc (length (u_index b)) (length (m_index b))"
    using harness_shape [OF assms(2) f(5) assms(3)] .
  have rows: "\<exists>i j p. getitem (u_map b) (uID row) = Inr i \<and> getitem (m_map b) (mID row) = Inr j \<and>
      get_cell rc i j = Inr p"
    if "row \<in> set (eval_set (u_index b) (m_index b) test_data)" for row
  proof -
    from eval_set_rows_indexed [OF assms(1) that]
    obtain i j where i: "i < length (u_index b)" "u_map b (uID row) = Some i"
      and j: "j < length (m_index b)" "m_map b (mID row) = Some j" by blast
    from get_cell_ok [OF sh i(1) j(1)] i(2) j(2) show ?thesis by (simp add: getitem_def)
  qed
  have "Evaluator rc b test_data \<noteq> Inl KeyError \<and> Evaluator rc b test_data \<noteq> Inl IndexError"
    by (simp add: Evaluator_score [OF assms(1) sh] score_def mean_squared_error_def)
  with rows show ?thesis by blast
qed

lemma nmf_contract_ones: "nmf_contract ones_model"
  by (auto simp: nmf_contract_def ones_model_def shape_def)

lemma harness_ones: "Factorization_Harness ones_model (matrix built0) = Inr [[20, 20], [20, 20]]"
  by code_simp

theorem evaluator_lookups_succeed_witness:
  "Matrix_Builder sub0 = Inr built0 \<and> nmf_contract ones_model \<and>
   Factorization_Harness ones_model (matrix built0) = Inr [[20, 20], [20, 20]] \<and>
   getitem (u_map built0) 2 = Inr 1 \<and> getitem (m_map built0) 20 = Inr 1 \<and>
   get_cell [[20, 20], [20, 20]] 1 1 = Inr 20 \<and>
   Evaluator [[20, 20], [20, 20]] built0 test0 \<noteq> Inl KeyError \<and>
   Evaluator [[20, 20], [20, 20]] built0 test0 \<noteq> Inl IndexError"
proof -
  note t = evaluator_lookups_succeed [OF Matrix_Builder_sub0 nmf_contract_ones harness_ones, of test0]
  have g: "getitem (u_map built0) 2 = Inr 1" "getitem (m_map built0) 20 = Inr 1"
    "get_cell [[20, 20], [20, 20]] 1 1 = Inr 20"
    by (simp_all add: getitem_def get_cell_def built0_def)
  from t [THEN conjunct2] g Matrix_Builder_sub0 nmf_contract_ones harness_ones
  show ?thesis by blast
qed

section \<open>Matrix dimensions and the sampled ids\<close>

lemma remdups_append_filter:
  "remdups (xs @ ys) = remdups (filter (\<lambda>x. x \<notin> set ys) xs) @ remdups ys"
  by (induction xs) auto

lemma drop_duplicates_append:
  "drop_duplicates (xs @ ys) = drop_duplicates xs @ drop_duplicates (filter (\<lambda>y. y \<notin> set xs) ys)"
proof -
  have "remdups (rev ys @ rev xs) = remdups (filter (\<lambda>y. y \<notin> set xs) (rev ys)) @ remdups (rev xs)"
    using remdups_append_filter [of "rev ys" "rev xs"] by simp
  then show ?thesis by (simp add: drop_duplicates_def rev_filter)
qed

lemma drop_duplicates_distinct: "distinct xs \<Longrightarrow> drop_duplicates xs = xs"
  by (simp add: drop_duplicates_def distinct_remdups_id)

lemma set_filler_ids: "set filler_ids = {2..<501}"
  unfolding filler_ids_def by (rule set_upt)

lemma distinct_filler_ids: "distinct filler_ids"
  unfolding filler_ids_def by (rule distinct_upt)

lemma length_filler_ids: "length filler_ids = 499"
  unfolding filler_ids_def length_upt by simp

lemma drop_duplicates_prefix:
  assumes "\<forall>y \<in> set ys. y \<notin> set xs" and "distinct ys"
  shows "drop_duplicates (xs @ ys) = drop_duplicates xs @ ys"
  using assms by (simp add: drop_duplicates_append drop_duplicates_distinct)

lemma users_train0: "map uID train0 = [0, 0, 1] @ map int filler_ids"
  by (simp add: train0_def filler_def comp_def)

lemma movies_train0: "map mID train0 = [900, 901, 900] @ map (\<lambda>k. 1000 + int k) filler_ids"
  by (simp add: train0_def filler_def comp_def)

lemma distinct_users_train0: "drop_duplicates (map uID train0) = 0 # 1 # map int filler_ids"
proof -
  have "drop_duplicates ([0, 0, 1] @ map int filler_ids) = drop_duplicates [0, 0, 1] @ map int filler_ids"
    by (rule drop_duplicates_prefix) (auto simp: distinct_map set_filler_ids distinct_filler_ids)
  then show ?thesis by (simp add: users_train0 drop_duplicates_def)
qed

lemma distinct_movies_train0:
  "drop_duplicates (map mID train0) = 900 # 901 # map (\<lambda>k. 1000 + int k) filler_ids"
proof -
  have "drop_duplicates ([900, 901, 900] @ map (\<lambda>k. 1000 + int k) filler_ids) =
        drop_duplicates [900, 901, 900] @ map (\<lambda>k. 1000 + int k) filler_ids"
    by (rule drop_duplicates_prefix) (auto simp: distinct_map inj_on_def set_filler_ids distinct_filler_ids)
  then show ?thesis by (simp add: movies_train0 drop_duplicates_def)
qed

lemma selected_users_train0:
  "selected_users last_n () train0 = Inr (1 # map int filler_ids)"
  by (simp add: selected_users_def selected_ids_def sample_def last_n_def distinct_users_train0
      length_filler_ids)

lemma selected_movies_train0:
  "selected_movies last_n () train0 = Inr (901 # map (\<lambda>k. 1000 + int k) filler_ids)"
  by (simp add: selected_movies_def selected_ids_def sample_def last_n_def distinct_movies_train0
      length_filler_ids)

lemma subset_rows_train0:
  "subset_rows train0 (1 # map int filler_ids) (901 # map (\<lambda>k. 1000 + int k) filler_ids) =
     map filler filler_ids"
proof -
  have "filter (\<lambda>row. isin (uID row) (1 # map int filler_ids) \<and>
                      isin (mID row) (901 # map (\<lambda>k. 1000 + int k) filler_ids))
          (map filler filler_ids) = map filler filler_ids"
    by (rule filter_True) (auto simp: isin_def filler_def)
  then show ?thesis
    by (auto simp: subset_rows_def train0_def isin_def set_filler_ids)
qed

lemma Sampler_train0:
  "Sampler last_n () train0 =
     Inr (1 # map int filler_ids, 901 # map (\<lambda>k. 1000 + int k) filler_ids, map filler filler_ids)"
  by (simp add: Sampler_def selected_users_train0 selected_movies_train0 subset_rows_train0)

lemma Sampler_subset:
  assumes "Sampler pick g train_data = Inr (su, sm, sub)"
  shows "sub = subset_rows train_data su sm"
  using assms by (auto simp: Sampler_def split: sum.splits)

lemma subset_rows_ids:
  "uID ` set (subset_rows train_data su sm) \<subseteq> set su"
  "mID ` set (subset_rows train_data su sm) \<subseteq> set sm"
  by (auto simp: subset_rows_def isin_def)

lemma card_ids_le:
  assumes "A \<subseteq> set xs"
  shows "card A \<le> length xs"
proof -
  have "card A \<le> card (set xs)" using assms by (simp add: card_mono)
  also have "\<dots> \<le> length xs" by (rule card_length)
  finally show ?thesis .
qed

lemma Matrix_Builder_dims:
  "\<exists>b. Matrix_Builder sub = Inr b \<and>
       length (u_index b) = card (uID ` set sub) \<and> length (m_index b) = card (mID ` set sub) \<and>
       shape (matrix b) (card (uID ` set sub)) (card (mID ` set sub))"
proof -
  from Matrix_Builder_result [of sub] obtain b where b: "Matrix_Builder sub = Inr b" by blast
  note f = Matrix_Builder_fields [OF b]
  have u: "length (u_index b) = card (uID ` set sub)" by (simp add: f(1) length_unique)
  have m: "length (m_index b) = card (mID ` set sub)" by (simp add: f(2) length_unique)
  from f(5) have "shape (matrix b) (card (uID ` set sub)) (card (mID ` set sub))"
    unfolding u m .
  with b u m show ?thesis by blast
qed

lemma card_users_kept: "card (uID ` set (map filler filler_ids)) = 499"
proof -
  have "uID ` set (map filler filler_ids) = int ` {2..<501}"
    by (auto simp: set_filler_ids filler_def image_iff)
  moreover have "card (int ` {2..<501}) = card {2..<501::nat}"
    by (rule card_image) simp
  ultimately show ?thesis by simp
qed

lemma card_movies_kept: "card (mID ` set (map filler filler_ids)) = 499"
proof -
  have "mID ` set (map filler filler_ids) = (\<lambda>k. 1000 + int k) ` {2..<501}"
    by (auto simp: set_filler_ids filler_def image_iff)
  moreover have "card ((\<lambda>k. 1000 + int k) ` {2..<501}) = card {2..<501::nat}"
    by (rule card_image) (simp add: inj_on_def)
  ultimately show ?thesis by simp
qed

lemma sampled_train0:
  "distinct (1 # map int filler_ids)" "length (1 # map int filler_ids) = 500"
  "set (1 # map int filler_ids) \<subseteq> uID ` set train0"
  "distinct (901 # map (\<lambda>k. 1000 + int k) filler_ids)"
  "length (901 # map (\<lambda>k. 1000 + int k) filler_ids) = 500"
  "set (901 # map (\<lambda>k. 1000 + int k) filler_ids) \<subseteq> mID ` set train0"
proof -
  show "distinct (1 # map int filler_ids)"
    by (auto simp: distinct_map distinct_filler_ids set_filler_ids)
  show "length (1 # map int filler_ids) = 500"
    by (simp add: length_filler_ids)
  show "distinct (901 # map (\<lambda>k. 1000 + int k) filler_ids)"
    by (auto simp: distinct_map distinct_filler_ids set_filler_ids inj_on_def)
  show "length (901 # map (\<lambda>k. 1000 + int k) filler_ids) = 500"
    by (simp add: length_filler_ids)
  have "set (drop_duplicates (map uID train0)) = uID ` set train0"
    by (simp add: set_drop_duplicates)
  then show "set (1 # map int filler_ids) \<subseteq> uID ` set train0"
    unfolding distinct_users_train0 by auto
  have "set (drop_duplicates (map mID train0)) = mID ` set train0"
    by (simp add: set_drop_duplicates)
  then show "set (901 # map (\<lambda>k. 1000 + int k) filler_ids) \<subseteq> mID ` set train0"
    unfolding distinct_movies_train0 by auto
qed

text \<open>
  Claim C9. The dimensions \<open>U\<close> and \<open>M\<close> of the rating matrix are the numbers of distinct
  user ids and distinct movie ids occurring in the filtered training subset; they are at most
  the numbers of sampled ids, and each can be strictly smaller than 500: for the example
  table and chooser the Sampler draws 500 distinct users and 500 distinct movies, and the
  matrix is 499 by 499.
\<close>

theorem matrix_dimensions:
  "(Sampler pick g train_data = Inr (su, sm, sub) \<longrightarrow>
      (\<exists>b. Matrix_Builder sub = Inr b \<and>
         length (u_index b) = card (uID ` set sub) \<and> length (m_index b) = card (mID ` set sub) \<and>
         shape (matrix b) (card (uID ` set sub)) (card (mID ` set sub)) \<and>
         card (uID ` set sub) \<le> length su \<and> card (mID ` set sub) \<le> length sm)) \<and>
   (\<exists>su sm sub b. Sampler last_n () train0 = Inr (su, sm, sub) \<and>
      distinct su \<and> length su = 500 \<and> set su \<subseteq> uID ` set train0 \<and>
      distinct sm \<and> length sm = 500 \<and> set sm \<subseteq> mID ` set train0 \<and>
      Matrix_Builder sub = Inr b \<and> shape (matrix b) 499 499)"
proof (intro conjI impI)
  assume s: "Sampler pick g train_data = Inr (su, sm, sub)"
  have sub: "sub = subset_rows train_data su sm" using s by (rule Sampler_subset)
  have "card (uID ` set sub) \<le> length su" "card (mID ` set sub) \<le> length sm"
    unfolding sub by (rule card_ids_le, rule subset_rows_ids)+
  with Matrix_Builder_dims [of sub]
  show "\<exists>b. Matrix_Builder sub = Inr b \<and>
         length (u_index b) = card (uID ` set sub) \<and> length (m_index b) = card (mID ` set sub) \<and>
         shape (matrix b) (card (uID ` set sub)) (card (mID ` set sub)) \<and>
         card (uID ` set sub) \<le> length su \<and> card (mID ` set sub) \<le> length sm"
    by blast
next
  from Matrix_Builder_dims [of "map filler filler_ids"]
  obtain b where "Matrix_Builder (map filler filler_ids) = Inr b" "shape (matrix b) 499 499"
    unfolding card_users_kept card_movies_kept by blast
  with Sampler_train0 sampled_train0
  show "\<exists>su sm sub b. Sampler last_n () train0 = Inr (su, sm, sub) \<and>
      distinct su \<and> length su = 500 \<and> set su \<subseteq> uID ` set train0 \<and>
      distinct sm \<and> length sm = 500 \<and> set sm \<subseteq> mID ` set train0 \<and>
      Matrix_Builder sub = Inr b \<and> shape (matrix b) 499 499"
    by blast
qed

theorem matrix_dimensions_witness:
  "Sampler last_n () train0 =
     Inr (1 # map int filler_ids, 901 # map (\<lambda>k. 1000 + int k) filler_ids, map filler filler_ids) \<and>
   length (1 # map int filler_ids) = 500 \<and>
   (\<exists>b. Matrix_Builder (map filler filler_ids) = Inr b \<and> length (u_index b) = 499 \<and>
      length (m_index b) = 499 \<and> shape (matrix b) 499 499)"
proof -
  from matrix_dimensions [THEN conjunct1, rule_format, OF Sampler_train0]
  have "\<exists>b. Matrix_Builder (map filler filler_ids) = Inr b \<and> length (u_index b) = 499 \<and>
      length (m_index b) = 499 \<and> shape (matrix b) 499 499"
    unfolding card_users_kept card_movies_kept by blast
  with Sampler_train0 sampled_train0(2) show ?thesis by blast
qed

section \<open>Reproducibility of the Sampler\<close>

lemma seeded_library_chooser: "seeded (library_chooser init draw)"
  by (simp add: seeded_def library_chooser_def)

text \<open>
  Claim C1. For every training table and every seed, two runs of the Sampler return the same
  sampled user ids and the same sampled movie ids, whatever the state of the ambient generator
  in each run and whatever generator the library uses: the notebook passes the seed 42 as
  \<^verbatim>\<open>random_state\<close> to both draws and nothing else of the run reaches them. The first
  conjunct is the same fact for any sample size and seed.
\<close>

theorem sampler_deterministic:
  "selected_ids (library_chooser init draw) g n seed col =
     selected_ids (library_chooser init draw) g' n seed col \<and>
   selected_users (library_chooser init draw) g train_data =
     selected_users (library_chooser init draw) g' train_data \<and>
   selected_movies (library_chooser init draw) g train_data =
     selected_movies (library_chooser init draw) g' train_data \<and>
   Sampler (library_chooser init draw) g train_data =
     Sampler (library_chooser init draw) g' train_data"
  by (intro conjI seeded_selected_ids seeded_Sampler seeded_library_chooser)

lemma offset_draw_train0:
  "offset_draw (seed_state 42) 500 (x # y # map f filler_ids) = y # map f filler_ids"
proof -
  have len: "length (x # y # map f filler_ids) - 500 + 1 = 2"
    by (simp add: length_filler_ids)
  have off: "seed_state 42 mod 2 = 1"
    by (simp add: seed_state_def)
  have "offset_draw (seed_state 42) 500 (x # y # map f filler_ids) =
          take 500 (drop 1 (x # y # map f filler_ids))"
    unfolding offset_draw_def len off by (rule refl)
  also have "\<dots> = y # map f filler_ids"
    by (simp add: length_filler_ids)
  finally show ?thesis .
qed

lemma Sampler_offset_train0:
  "Sampler (library_chooser seed_state offset_draw) 0 train0 =
     Inr (1 # map int filler_ids, 901 # map (\<lambda>k. 1000 + int k) filler_ids, map filler filler_ids)"
proof -
  have u: "selected_users (library_chooser seed_state offset_draw) 0 train0 =
      Inr (1 # map int filler_ids)"
    by (simp add: selected_users_def selected_ids_def sample_def library_chooser_def
        distinct_users_train0 offset_draw_train0 length_filler_ids)
  have m: "selected_movies (library_chooser seed_state offset_draw) 0 train0 =
      Inr (901 # map (\<lambda>k. 1000 + int k) filler_ids)"
    by (simp add: selected_movies_def selected_ids_def sample_def library_chooser_def
        distinct_movies_train0 offset_draw_train0 length_filler_ids)
  show ?thesis by (simp add: Sampler_def u m subset_rows_train0)
qed

theorem sampler_deterministic_witness:
  "Sampler (library_chooser seed_state offset_draw) 0 train0 =
     Inr (1 # map int filler_ids, 901 # map (\<lambda>k. 1000 + int k) filler_ids, map filler filler_ids) \<and>
   Sampler (library_chooser seed_state offset_draw) 7 train0 =
     Inr (1 # map int filler_ids, 901 # map (\<lambda>k. 1000 + int k) filler_ids, map filler filler_ids) \<and>
   length (1 # map int filler_ids) = 500 \<and>
   sample (library_chooser seed_state offset_draw) 0 2 (Some 42) [3, 1, 2] = Inr [1, 2] \<and>
   sample (library_chooser seed_state offset_draw) 7 2 (Some 42) [3, 1, 2] = Inr [1, 2] \<and>
   sample (library_chooser seed_state offset_draw) 0 2 None [3, 1, 2] = Inr [3, 1] \<and>
   sample (library_chooser seed_state offset_draw) 7 2 None [3, 1, 2] = Inr [1, 2]"
proof -
  note t = sampler_deterministic [of seed_state offset_draw 0 500 42 "map uID train0" 7 train0]
  have run7: "Sampler (library_chooser seed_state offset_draw) 7 train0 =
     Inr (1 # map int filler_ids, 901 # map (\<lambda>k. 1000 + int k) filler_ids, map filler filler_ids)"
    using t [THEN conjunct2, THEN conjunct2, THEN conjunct2] Sampler_offset_train0 by simp
  have s: "sample (library_chooser seed_state offset_draw) 0 2 (Some 42) [3, 1, 2] = Inr [1, 2]"
    "sample (library_chooser seed_state offset_draw) 7 2 (Some 42) [3, 1, 2] = Inr [1, 2]"
    "sample (library_chooser seed_state offset_draw) 0 2 None [3, 1, 2] = Inr [3, 1]"
    "sample (library_chooser seed_state offset_draw) 7 2 None [3, 1, 2] = Inr [1, 2]"
    by code_simp+
  from Sampler_offset_train0 run7 sampled_train0(2) s show ?thesis by blast
qed

end
